theory Spec2Isabelle
  imports Complex_Main "HOL-Library.Multiset"
begin

section \<open>The sum game: data model (utils)\<close>

text \<open>
  The engine of the game is the React component \<open>App\<close> (App.tsx) together with the
  helpers of the utils module.  The component's state variables become one record, every
  handler becomes a function from the state before to the state after, and every call of
  \<open>Math.random\<close> becomes a parameter (a record of draws), so that a statement "for every
  random draw" is a statement for every value of that parameter.  A handler reads the
  state of the last render, and the updates and updater functions it queues are applied
  once each, in the order of the calls, before the next handler runs.  Numbers are
  integers (block values, target, score, seconds) or array indices (coordinates).
\<close>

definition GRID_COLS :: nat where
  "GRID_COLS = 6"

definition GRID_ROWS :: nat where
  "GRID_ROWS = 10"

definition INITIAL_ROWS :: nat where
  "INITIAL_ROWS = 4"

datatype GameMode = Classic | Time

datatype GameStatus = Idle | Playing | GameOver

text \<open>The interface \<open>Block\<close>: fields \<open>id\<close> and \<open>value\<close> of the source.\<close>

record Block =
  block_id :: string
  block_value :: int

text \<open>A cell is \<open>Block | null\<close>; the grid is an array of rows.\<close>

type_synonym cell = "Block option"

type_synonym grid = "cell list list"

text \<open>A selected coordinate \<open>{r, c}\<close>: array indices, as the grid's rendering passes them.\<close>

type_synonym coord = "nat \<times> nat"

text \<open>
  An exception that leaves a handler or a state updater.  A handler that throws is the
  result \<open>Inl\<close>; a handler that returns is \<open>Inr\<close> of the state after all the updates it
  queued.
\<close>

datatype error = TypeError

text \<open>
  The random draws of one handler run.  \<open>idDraw d k j\<close> and \<open>valueDraw d k j\<close> are what
  \<open>generateId()\<close> returns and what \<open>Math.random()\<close> returns inside \<open>getRandomValue()\<close> for
  cell \<open>j\<close> of the \<open>k\<close>-th call of \<open>generateRow\<close>; \<open>countDraw\<close> is the \<open>Math.random()\<close> of
  the block count in \<open>generateNewTarget\<close>; \<open>shuffleDraw d n\<close> is the order in which
  \<open>sort(() => 0.5 - Math.random())\<close> leaves an array of \<open>n\<close> elements, as the list of the
  original indices.
\<close>

record draws =
  idDraw :: "nat \<Rightarrow> nat \<Rightarrow> string"
  valueDraw :: "nat \<Rightarrow> nat \<Rightarrow> real"
  countDraw :: real
  shuffleDraw :: "nat \<Rightarrow> nat list"

text \<open>\<open>Math.random()\<close> returns a number in \<open>[0, 1)\<close>; a sort returns a permutation.\<close>

definition unitDraw :: "real \<Rightarrow> bool" where
  "unitDraw u = (0 \<le> u \<and> u < 1)"

definition isShuffle :: "nat \<Rightarrow> nat list \<Rightarrow> bool" where
  "isShuffle n p = (mset p = mset [0..<n])"

definition validDraws :: "draws \<Rightarrow> bool" where
  "validDraws d =
     ((\<forall>k j. unitDraw (valueDraw d k j)) \<and> unitDraw (countDraw d) \<and>
      (\<forall>n. isShuffle n (shuffleDraw d n)))"

text \<open>\<open>getRandomValue\<close>: \<open>Math.floor(Math.random() * 9) + 1\<close>.\<close>

definition getRandomValue :: "real \<Rightarrow> int" where
  "getRandomValue u = \<lfloor>u * 9\<rfloor> + 1"

text \<open>\<open>generateRow\<close>: \<open>Array.from({ length: GRID_COLS }, () => ({ id, value }))\<close>.\<close>

definition generateRow :: "(nat \<Rightarrow> string) \<Rightarrow> (nat \<Rightarrow> real) \<Rightarrow> cell list" where
  "generateRow ids us =
     map (\<lambda>j. Some \<lparr>block_id = ids j, block_value = getRandomValue (us j)\<rparr>) [0..<GRID_COLS]"

section \<open>The component state\<close>

record game =
  status :: GameStatus
  mode :: GameMode
  grid :: grid
  selected :: "coord list"
  target :: int
  score :: int
  timeLeft :: int
  isPaused :: bool
  highScore :: int

text \<open>The initial values of the \<open>useState\<close> calls.\<close>

definition appInitial :: game where
  "appInitial =
     \<lparr>status = Idle, mode = Classic, grid = [], selected = [], target = 0, score = 0,
      timeLeft = 10, isPaused = False, highScore = 0\<rparr>"

section \<open>Target generation\<close>

text \<open>\<open>currentGrid.flat().filter(b => b !== null)\<close>.\<close>

definition flatBlocks :: "grid \<Rightarrow> Block list" where
  "flatBlocks g = map the (filter (\<lambda>b. b \<noteq> None) (concat g))"

text \<open>\<open>Math.min(flatBlocks.length, Math.floor(Math.random() * 3) + 2)\<close>.\<close>

definition targetCount :: "real \<Rightarrow> nat \<Rightarrow> nat" where
  "targetCount u n = min n (nat (\<lfloor>u * 3\<rfloor> + 2))"

text \<open>
  \<open>generateNewTarget\<close>.  The shuffled copy is the array of blocks read in the order of the
  shuffle draw; \<open>slice(0, count).reduce(...)\<close> sums the values of its first \<open>count\<close> blocks.
\<close>

definition generateNewTarget :: "real \<Rightarrow> (nat \<Rightarrow> nat list) \<Rightarrow> grid \<Rightarrow> int" where
  "generateNewTarget u shuffle currentGrid =
     (let flat = flatBlocks currentGrid in
      if length flat = 0 then 10
      else
        let count = targetCount u (length flat);
            shuffled = map (\<lambda>i. flat ! i) (shuffle (length flat));
            sum = sum_list (map block_value (take count shuffled))
        in max 5 (min sum 40))"

section \<open>Row injection\<close>

text \<open>
  The loop \<open>for (r = 0; r < GRID_ROWS - 1; r++) newGrid[r] = [...newGrid[r + 1]]\<close> followed by
  \<open>newGrid[GRID_ROWS - 1] = generateRow()\<close>.
\<close>

definition shiftUp :: "grid \<Rightarrow> cell list \<Rightarrow> grid" where
  "shiftUp prev newRow =
     (fold (\<lambda>r g. g[r := g ! (r + 1)]) [0..<GRID_ROWS - 1] prev)[GRID_ROWS - 1 := newRow]"

text \<open>
  \<open>addNewRow\<close>: the updater passed to \<open>setGrid\<close>, with the \<open>setStatus('gameover')\<close> it
  issues.  \<open>prev[0]\<close> of an empty array is \<open>undefined\<close>, and so is \<open>newGrid[r + 1]\<close> past
  the last row: \<open>.some\<close> of the one and the spread of the other throw a TypeError.
\<close>

definition addNewRow :: "draws \<Rightarrow> game \<Rightarrow> error + game" where
  "addNewRow d s =
     (case grid s of
        [] \<Rightarrow> Inl TypeError
      | topRow # _ \<Rightarrow>
          if list_ex (\<lambda>cell. cell \<noteq> None) topRow then Inr (s\<lparr>status := GameOver\<rparr>)
          else if length (grid s) < GRID_ROWS then Inl TypeError
          else Inr (s\<lparr>grid := shiftUp (grid s) (generateRow (idDraw d 0) (valueDraw d 0))\<rparr>))"

section \<open>Initialisation\<close>

text \<open>
  \<open>initGame\<close>: an all-null grid whose bottom \<open>INITIAL_ROWS\<close> rows are then replaced by
  generated rows (the \<open>i\<close>-th call of \<open>generateRow\<close> fills row \<open>GRID_ROWS - 1 - i\<close>).
\<close>

definition initialGrid :: "draws \<Rightarrow> grid" where
  "initialGrid d =
     fold (\<lambda>i g. g[GRID_ROWS - 1 - i := generateRow (idDraw d i) (valueDraw d i)])
       [0..<INITIAL_ROWS] (replicate GRID_ROWS (replicate GRID_COLS None))"

definition initGame :: "draws \<Rightarrow> GameMode \<Rightarrow> game \<Rightarrow> game" where
  "initGame d selectedMode s =
     s\<lparr>grid := initialGrid d,
       mode := selectedMode,
       status := Playing,
       score := 0,
       selected := [],
       target := generateNewTarget (countDraw d) (shuffleDraw d) (initialGrid d),
       timeLeft := (if selectedMode = Time then 15 else 0),
       isPaused := False\<rparr>"

section \<open>Selection\<close>

text \<open>
  The read \<open>grid[r][c]\<close>: a TypeError when \<open>grid[r]\<close> is \<open>undefined\<close>; \<open>undefined\<close> when only
  the column is out of range, which \<open>!block\<close> and \<open>?.value || 0\<close> treat as an empty cell.
\<close>

definition cellAt :: "grid \<Rightarrow> nat \<Rightarrow> nat \<Rightarrow> error + cell" where
  "cellAt g r c =
     (if r < length g then (if c < length (g ! r) then Inr (g ! r ! c) else Inr None)
      else Inl TypeError)"

text \<open>The toggle: \<open>selected.some(...)\<close>, then \<open>filter\<close> or append.\<close>

definition toggleSelected :: "coord list \<Rightarrow> nat \<Rightarrow> nat \<Rightarrow> coord list" where
  "toggleSelected sel r c =
     (if list_ex (\<lambda>s. fst s = r \<and> snd s = c) sel
      then filter (\<lambda>s. \<not> (fst s = r \<and> snd s = c)) sel
      else sel @ [(r, c)])"

text \<open>\<open>newSelected.reduce((acc, s) => acc + (grid[s.r][s.c]?.value || 0), 0)\<close>.\<close>

fun sumSelected :: "grid \<Rightarrow> int \<Rightarrow> coord list \<Rightarrow> error + int" where
  "sumSelected g acc [] = Inr acc"
| "sumSelected g acc (s # rest) =
     (case cellAt g (fst s) (snd s) of
        Inl e \<Rightarrow> Inl e
      | Inr cell \<Rightarrow>
          sumSelected g (acc + (case cell of None \<Rightarrow> 0 | Some b \<Rightarrow> block_value b)) rest)"

text \<open>
  The write \<open>newGrid[r][c] = null\<close>: a TypeError when \<open>newGrid[r]\<close> is \<open>undefined\<close>.  A
  write past the end of a row lengthens the row; the slots it leaves between are written
  here as empty cells.
\<close>

definition clearCell :: "coord \<Rightarrow> grid \<Rightarrow> error + grid" where
  "clearCell s g =
     (if fst s < length g then
        (let row = g ! fst s in
         if snd s < length row then Inr (g[fst s := row[snd s := None]])
         else Inr (g[fst s := row @ replicate (snd s - length row) None @ [None]]))
      else Inl TypeError)"

text \<open>\<open>selectedBlocks.forEach(({ r, c }) => { newGrid[r][c] = null; })\<close>.\<close>

fun clearBlocks :: "coord list \<Rightarrow> grid \<Rightarrow> error + grid" where
  "clearBlocks [] g = Inr g"
| "clearBlocks (s # rest) g =
     (case clearCell s g of Inl e \<Rightarrow> Inl e | Inr g' \<Rightarrow> clearBlocks rest g')"

text \<open>
  \<open>handleSuccess\<close>.  The state updates it queues run in the order of the calls: the score,
  the grid updater that clears the blocks, the selection, the grid updater that sets the
  target from the grid it receives, and then either the grid updater of \<open>addNewRow\<close> or
  the time bonus.  The confetti effect is presentation and is left out.
\<close>

definition handleSuccess :: "draws \<Rightarrow> coord list \<Rightarrow> game \<Rightarrow> error + game" where
  "handleSuccess d selectedBlocks s =
     (let points = target s * int (length selectedBlocks) in
      case clearBlocks selectedBlocks (grid s) of
        Inl e \<Rightarrow> Inl e
      | Inr newGrid \<Rightarrow>
          let s1 = s\<lparr>score := score s + points,
                     grid := newGrid,
                     selected := [],
                     target := generateNewTarget (countDraw d) (shuffleDraw d) newGrid\<rparr>
          in if mode s = Classic then addNewRow d s1
             else Inr (s1\<lparr>timeLeft := min (timeLeft s1 + 5) 20\<rparr>))"

text \<open>\<open>handleBlockClick\<close>.\<close>

definition handleBlockClick :: "draws \<Rightarrow> nat \<Rightarrow> nat \<Rightarrow> game \<Rightarrow> error + game" where
  "handleBlockClick d r c s =
     (if status s \<noteq> Playing \<or> isPaused s then Inr s
      else
        case cellAt (grid s) r c of
          Inl e \<Rightarrow> Inl e
        | Inr None \<Rightarrow> Inr s
        | Inr (Some block) \<Rightarrow>
            (let newSelected = toggleSelected (selected s) r c;
                 s1 = s\<lparr>selected := newSelected\<rparr>
             in (case sumSelected (grid s) 0 newSelected of
                   Inl e \<Rightarrow> Inl e
                 | Inr currentSum \<Rightarrow>
                     if currentSum = target s then handleSuccess d newSelected s1
                     else if currentSum > target s then Inr (s1\<lparr>selected := []\<rparr>)
                     else Inr s1)))"

section \<open>Timers and effects\<close>

text \<open>
  The timer effect: an interval runs only while the game is playing and not paused.  In
  time mode its callback is the \<open>setTimeLeft\<close> updater, in classic mode it is \<open>addNewRow\<close>.
\<close>

definition tick :: "draws \<Rightarrow> game \<Rightarrow> error + game" where
  "tick d s =
     (if status s = Playing \<and> \<not> isPaused s then
        (if mode s = Time then
           (if timeLeft s \<le> 1 then
              (case addNewRow d s of
                 Inl e \<Rightarrow> Inl e
               | Inr s' \<Rightarrow> Inr (s'\<lparr>timeLeft := 10\<rparr>))
            else Inr (s\<lparr>timeLeft := timeLeft s - 1\<rparr>))
         else addNewRow d s)
      else Inr s)"

text \<open>The effect \<open>if (score > highScore) setHighScore(score)\<close>, run after a render.\<close>

definition highScoreEffect :: "game \<Rightarrow> game" where
  "highScoreEffect s = (if score s > highScore s then s\<lparr>highScore := score s\<rparr> else s)"

text \<open>The intents the rendering forwards, and the timer's tick.\<close>

datatype intent =
  Initialize GameMode
  | SelectCell nat nat
  | TogglePause
  | Resume
  | ReturnToMenu
  | Tick

definition handle :: "draws \<Rightarrow> intent \<Rightarrow> game \<Rightarrow> error + game" where
  "handle d i s =
     (case i of
        Initialize m \<Rightarrow> Inr (initGame d m s)
      | SelectCell r c \<Rightarrow> handleBlockClick d r c s
      | TogglePause \<Rightarrow> Inr (s\<lparr>isPaused := \<not> isPaused s\<rparr>)
      | Resume \<Rightarrow> Inr (s\<lparr>isPaused := False\<rparr>)
      | ReturnToMenu \<Rightarrow> Inr (s\<lparr>status := Idle\<rparr>)
      | Tick \<Rightarrow> tick d s)"

definition step :: "draws \<Rightarrow> intent \<Rightarrow> game \<Rightarrow> error + game" where
  "step d i s = map_sum (\<lambda>e. e) highScoreEffect (handle d i s)"

text \<open>
  The states the component can be in once a game was started: \<open>initGame\<close> from the
  initial state of the component, then any intents and ticks with any valid draws.  A
  handler that throws makes no transition; in a reachable state the only one that does is
  a click on a row index beyond the grid, which throws before any update is queued
  (\<open>reachable_step_defined\<close> below).
\<close>

inductive reachable :: "game \<Rightarrow> bool" where
  reachable_init: "validDraws d \<Longrightarrow> reachable (initGame d m appInitial)"
| reachable_step: "reachable s \<Longrightarrow> validDraws d \<Longrightarrow> step d i s = Inr s' \<Longrightarrow> reachable s'"

text \<open>A run of intents, each handled with the same draws; it stops at the first exception.\<close>

fun run :: "draws \<Rightarrow> intent list \<Rightarrow> game \<Rightarrow> error + game" where
  "run d [] s = Inr s"
| "run d (i # rest) s = (case step d i s of Inl e \<Rightarrow> Inl e | Inr s' \<Rightarrow> run d rest s')"

section \<open>Well-formed states\<close>

text \<open>
  A coordinate lies in the grid when its row exists and its column exists in that row.  A
  state is well shaped when its grid has \<open>GRID_ROWS\<close> rows of \<open>GRID_COLS\<close> cells and every
  selected coordinate lies in the grid.
\<close>

definition inGrid :: "grid \<Rightarrow> coord \<Rightarrow> bool" where
  "inGrid g p = (fst p < length g \<and> snd p < length (g ! fst p))"

definition wellShaped :: "game \<Rightarrow> bool" where
  "wellShaped s =
     (map length (grid s) = replicate GRID_ROWS GRID_COLS \<and>
      list_all (inGrid (grid s)) (selected s))"

section \<open>Example inputs\<close>

text \<open>
  A fixed run of the random source, used to evaluate the handlers on concrete states:
  every generated row gets the values 1, 2, 4, 5, 7, 8, the block count draw is the
  smallest one (two blocks), and the shuffle leaves the array as it is.
\<close>

definition exampleDraws :: draws where
  "exampleDraws =
     \<lparr>idDraw = (\<lambda>k j. ''b''), valueDraw = (\<lambda>k j. real (j mod 6) / 6), countDraw = 0,
      shuffleDraw = (\<lambda>n. [0..<n])\<rparr>"

definition exampleRow :: "cell list" where
  "exampleRow = map (\<lambda>v. Some \<lparr>block_id = ''b'', block_value = v\<rparr>) [1, 2, 4, 5, 7, 8]"

definition emptyRow :: "cell list" where
  "emptyRow = replicate GRID_COLS None"

text \<open>The state after \<open>initGame('classic')\<close> and after \<open>initGame('time')\<close> with these draws.\<close>

definition exampleStart :: game where
  "exampleStart = initGame exampleDraws Classic appInitial"

definition exampleTimed :: game where
  "exampleTimed = initGame exampleDraws Time appInitial"

text \<open>A state whose top row is occupied: the stack has reached the game-over line.\<close>

definition exampleFull :: game where
  "exampleFull = exampleStart\<lparr>grid := replicate GRID_ROWS exampleRow\<rparr>"

text \<open>The grid of the scenario "empty except one cell (9,0) = 7".\<close>

definition exampleSingle :: grid where
  "exampleSingle =
     replicate 9 emptyRow @
     [[Some \<lparr>block_id = ''b'', block_value = 7\<rparr>, None, None, None, None, None]]"

text \<open>A generated row after the blocks in columns 0 and 2 were cleared.\<close>

definition exampleHoles :: "cell list" where
  "exampleHoles =
     [None, Some \<lparr>block_id = ''b'', block_value = 2\<rparr>, None,
      Some \<lparr>block_id = ''b'', block_value = 5\<rparr>, Some \<lparr>block_id = ''b'', block_value = 7\<rparr>,
      Some \<lparr>block_id = ''b'', block_value = 8\<rparr>]"

section \<open>Basic facts\<close>

lemma getRandomValue_range:
  assumes "unitDraw u"
  shows "1 \<le> getRandomValue u \<and> getRandomValue u \<le> 9"
proof -
  from assms have "0 \<le> u * 9" and "u * 9 < 9"
    by (simp_all add: unitDraw_def)
  then have "0 \<le> \<lfloor>u * 9\<rfloor>" and "\<lfloor>u * 9\<rfloor> < 9"
    by (simp_all add: floor_less_iff)
  then show ?thesis
    by (simp add: getRandomValue_def)
qed

lemma exampleDraws_valid: "validDraws exampleDraws"
  by (simp add: validDraws_def exampleDraws_def unitDraw_def isShuffle_def)

lemma emptyRow_cells: "emptyRow = [None, None, None, None, None, None]"
  by (simp add: emptyRow_def GRID_COLS_def numeral_eq_Suc)

lemma emptyRow_empty: "list_all (\<lambda>cell. cell = None) emptyRow"
  by (simp add: emptyRow_cells)

lemma exampleRow_generated:
  "generateRow (idDraw exampleDraws k) (valueDraw exampleDraws k) = exampleRow"
  by (simp add: generateRow_def exampleDraws_def exampleRow_def getRandomValue_def
      GRID_COLS_def upt_conv_Cons)

lemma exampleGrid:
  "initialGrid exampleDraws =
     [emptyRow, emptyRow, emptyRow, emptyRow, emptyRow, emptyRow,
      exampleRow, exampleRow, exampleRow, exampleRow]"
  by (simp add: initialGrid_def exampleRow_generated emptyRow_def GRID_ROWS_def
      INITIAL_ROWS_def upt_conv_Cons numeral_eq_Suc)

lemma exampleTarget:
  "generateNewTarget (countDraw exampleDraws) (shuffleDraw exampleDraws) g =
     (if flatBlocks g = [] then 10
      else max 5 (min (sum_list (map block_value (take 2 (flatBlocks g)))) 40))"
proof -
  have "map (\<lambda>i. flatBlocks g ! i) [0..<length (flatBlocks g)] = flatBlocks g"
    by (rule map_nth)
  moreover have "take (min (length (flatBlocks g)) 2) (flatBlocks g) = take 2 (flatBlocks g)"
    by (simp add: min_def)
  ultimately show ?thesis
    by (simp add: generateNewTarget_def targetCount_def exampleDraws_def)
qed

lemma exampleStart_fields:
  "grid exampleStart =
     [emptyRow, emptyRow, emptyRow, emptyRow, emptyRow, emptyRow,
      exampleRow, exampleRow, exampleRow, exampleRow]"
  "status exampleStart = Playing" "mode exampleStart = Classic" "selected exampleStart = []"
  "target exampleStart = 5" "score exampleStart = 0" "timeLeft exampleStart = 0"
  "isPaused exampleStart = False" "highScore exampleStart = 0"
  by (simp_all add: exampleStart_def initGame_def appInitial_def exampleGrid exampleTarget
      flatBlocks_def emptyRow_def exampleRow_def GRID_COLS_def)

lemma exampleTimed_fields:
  "grid exampleTimed =
     [emptyRow, emptyRow, emptyRow, emptyRow, emptyRow, emptyRow,
      exampleRow, exampleRow, exampleRow, exampleRow]"
  "status exampleTimed = Playing" "mode exampleTimed = Time" "selected exampleTimed = []"
  "target exampleTimed = 5" "score exampleTimed = 0" "timeLeft exampleTimed = 15"
  "isPaused exampleTimed = False" "highScore exampleTimed = 0"
  by (simp_all add: exampleTimed_def initGame_def appInitial_def exampleGrid exampleTarget
      flatBlocks_def emptyRow_def exampleRow_def GRID_COLS_def)

section \<open>Row injection\<close>

lemma shiftUp_rows:
  assumes "length prev = GRID_ROWS"
  shows "shiftUp prev newRow = tl prev @ [newRow]"
proof -
  from assms obtain a0 a1 a2 a3 a4 a5 a6 a7 a8 a9
    where "prev = [a0, a1, a2, a3, a4, a5, a6, a7, a8, a9]"
    by (auto simp: GRID_ROWS_def numeral_eq_Suc length_Suc_conv)
  then show ?thesis
    by (simp add: shiftUp_def GRID_ROWS_def upt_rec numeral_eq_Suc)
qed

lemma generateRow_length: "length (generateRow ids us) = GRID_COLS"
  by (simp add: generateRow_def)

lemma generateRow_cells:
  assumes "\<forall>j. unitDraw (us j)" and "cell \<in> set (generateRow ids us)"
  shows "\<exists>b. cell = Some b \<and> 1 \<le> block_value b \<and> block_value b \<le> 9"
  using assms getRandomValue_range by (auto simp: generateRow_def)

lemma addNewRow_gameover_eq:
  assumes "grid s \<noteq> []" and "list_ex (\<lambda>cell. cell \<noteq> None) (grid s ! 0)"
  shows "addNewRow d s = Inr (s\<lparr>status := GameOver\<rparr>)"
  using assms by (cases "grid s") (simp_all add: addNewRow_def)

lemma addNewRow_shift_eq:
  assumes "length (grid s) = GRID_ROWS" and "list_all (\<lambda>cell. cell = None) (grid s ! 0)"
  shows "addNewRow d s =
           Inr (s\<lparr>grid := tl (grid s) @ [generateRow (idDraw d 0) (valueDraw d 0)]\<rparr>)"
proof -
  from assms(1) obtain topRow rest where g: "grid s = topRow # rest"
    by (cases "grid s") (simp_all add: GRID_ROWS_def)
  with assms(2) have "\<not> list_ex (\<lambda>cell. cell \<noteq> None) topRow"
    by (simp add: list_all_iff list_ex_iff)
  with g assms(1) show ?thesis
    by (simp add: addNewRow_def shiftUp_rows)
qed

text \<open>
  Claim C2.  When row 0 of the grid holds at least one block, \<open>addNewRow\<close> sets the status
  to game over and leaves the grid as it was: no row is shifted and no row is added.
\<close>

theorem addNewRow_top_occupied:
  assumes "grid s \<noteq> []" and "list_ex (\<lambda>cell. cell \<noteq> None) (grid s ! 0)"
  shows "\<exists>s'. addNewRow d s = Inr s' \<and> status s' = GameOver \<and> grid s' = grid s \<and>
           s' = s\<lparr>status := GameOver\<rparr>"
  using addNewRow_gameover_eq [OF assms] by simp

theorem addNewRow_top_occupied_witness:
  "grid exampleFull \<noteq> [] \<and> list_ex (\<lambda>cell. cell \<noteq> None) (grid exampleFull ! 0) \<and>
   (\<exists>s'. addNewRow exampleDraws exampleFull = Inr s' \<and> status s' = GameOver \<and>
      grid s' = grid exampleFull \<and> s' = exampleFull\<lparr>status := GameOver\<rparr>)"
proof -
  have occupied: "grid exampleFull \<noteq> []"
    "list_ex (\<lambda>cell. cell \<noteq> None) (grid exampleFull ! 0)"
    by (simp_all add: exampleFull_def GRID_ROWS_def exampleRow_def)
  from occupied addNewRow_top_occupied [OF occupied, of exampleDraws] show ?thesis
    by blast
qed

text \<open>
  Claim C3.  When the grid has its \<open>GRID_ROWS\<close> rows and row 0 is entirely empty,
  \<open>addNewRow\<close> puts the content of row \<open>i + 1\<close> into row \<open>i\<close> for every \<open>i\<close> from 0 to
  \<open>GRID_ROWS - 2\<close>, and row \<open>GRID_ROWS - 1\<close> becomes a generated row: \<open>GRID_COLS\<close> cells,
  each of them a block whose value is an integer between 1 and 9.
\<close>

theorem addNewRow_top_empty:
  assumes "length (grid s) = GRID_ROWS"
    and "list_all (\<lambda>cell. cell = None) (grid s ! 0)"
    and "validDraws d"
  shows "\<exists>s'. addNewRow d s = Inr s' \<and>
           length (grid s') = GRID_ROWS \<and>
           (\<forall>i. i \<le> GRID_ROWS - 2 \<longrightarrow> grid s' ! i = grid s ! (i + 1)) \<and>
           length (grid s' ! (GRID_ROWS - 1)) = GRID_COLS \<and>
           (\<forall>cell \<in> set (grid s' ! (GRID_ROWS - 1)).
              \<exists>b. cell = Some b \<and> 1 \<le> block_value b \<and> block_value b \<le> 9)"
proof -
  let ?new = "generateRow (idDraw d 0) (valueDraw d 0)"
  let ?g' = "tl (grid s) @ [?new]"
  have run: "addNewRow d s = Inr (s\<lparr>grid := ?g'\<rparr>)"
    using assms(1,2) by (rule addNewRow_shift_eq)
  have len: "length ?g' = GRID_ROWS"
    using assms(1) by (simp add: GRID_ROWS_def)
  have shifted: "?g' ! i = grid s ! (i + 1)" if "i \<le> GRID_ROWS - 2" for i
    using that assms(1) by (simp add: GRID_ROWS_def nth_append nth_tl)
  have last: "?g' ! (GRID_ROWS - 1) = ?new"
    using assms(1) by (simp add: GRID_ROWS_def nth_append)
  have "\<forall>j. unitDraw (valueDraw d 0 j)"
    using assms(3) by (simp add: validDraws_def)
  then have fresh:
    "\<forall>cell \<in> set ?new. \<exists>b. cell = Some b \<and> 1 \<le> block_value b \<and> block_value b \<le> 9"
    using generateRow_cells by blast
  show ?thesis
    using run len shifted last fresh generateRow_length by auto
qed

theorem addNewRow_top_empty_witness:
  "length (grid exampleStart) = GRID_ROWS \<and>
   list_all (\<lambda>cell. cell = None) (grid exampleStart ! 0) \<and>
   validDraws exampleDraws \<and>
   (\<exists>s'. addNewRow exampleDraws exampleStart = Inr s' \<and>
      length (grid s') = GRID_ROWS \<and>
      (\<forall>i. i \<le> GRID_ROWS - 2 \<longrightarrow> grid s' ! i = grid exampleStart ! (i + 1)) \<and>
      length (grid s' ! (GRID_ROWS - 1)) = GRID_COLS \<and>
      (\<forall>cell \<in> set (grid s' ! (GRID_ROWS - 1)).
         \<exists>b. cell = Some b \<and> 1 \<le> block_value b \<and> block_value b \<le> 9))"
proof -
  have rows: "length (grid exampleStart) = GRID_ROWS"
    by (simp add: exampleStart_fields GRID_ROWS_def)
  have top: "list_all (\<lambda>cell. cell = None) (grid exampleStart ! 0)"
    by (simp add: exampleStart_fields emptyRow_empty)
  from rows top exampleDraws_valid addNewRow_top_empty [OF rows top exampleDraws_valid]
  show ?thesis
    by blast
qed

text \<open>
  Claim C10.  When the grid has its \<open>GRID_ROWS\<close> rows and row 0 is empty, \<open>addNewRow\<close>
  changes nothing but the grid: score, target, selection, status, mode, pause flag, high
  score (and the time left) are what they were.  In particular the selection is neither
  cleared nor moved with the blocks.
\<close>

theorem addNewRow_frame:
  assumes "length (grid s) = GRID_ROWS"
    and "list_all (\<lambda>cell. cell = None) (grid s ! 0)"
  shows "\<exists>s'. addNewRow d s = Inr s' \<and> s' = s\<lparr>grid := grid s'\<rparr> \<and>
           score s' = score s \<and> target s' = target s \<and> selected s' = selected s \<and>
           status s' = status s \<and> mode s' = mode s \<and> isPaused s' = isPaused s \<and>
           highScore s' = highScore s \<and> timeLeft s' = timeLeft s"
  using addNewRow_shift_eq [OF assms, of d] by simp

theorem addNewRow_frame_witness:
  "length (grid (exampleStart\<lparr>selected := [(6, 0)]\<rparr>)) = GRID_ROWS \<and>
   list_all (\<lambda>cell. cell = None) (grid (exampleStart\<lparr>selected := [(6, 0)]\<rparr>) ! 0) \<and>
   (\<exists>s'. addNewRow exampleDraws (exampleStart\<lparr>selected := [(6, 0)]\<rparr>) = Inr s' \<and>
      s' = exampleStart\<lparr>selected := [(6, 0)], grid := grid s'\<rparr> \<and>
      score s' = 0 \<and> target s' = 5 \<and> selected s' = [(6, 0)] \<and> status s' = Playing \<and>
      mode s' = Classic \<and> isPaused s' = False \<and> highScore s' = 0 \<and> timeLeft s' = 0)"
proof -
  let ?s = "exampleStart\<lparr>selected := [(6, 0)]\<rparr>"
  have rows: "length (grid ?s) = GRID_ROWS"
    by (simp add: exampleStart_fields GRID_ROWS_def)
  have top: "list_all (\<lambda>cell. cell = None) (grid ?s ! 0)"
    by (simp add: exampleStart_fields emptyRow_empty)
  from addNewRow_frame [OF rows top, of exampleDraws] obtain s'
    where "addNewRow exampleDraws ?s = Inr s'" and "s' = ?s\<lparr>grid := grid s'\<rparr>"
      and "score s' = score ?s" and "target s' = target ?s" and "selected s' = selected ?s"
      and "status s' = status ?s" and "mode s' = mode ?s" and "isPaused s' = isPaused ?s"
      and "highScore s' = highScore ?s" and "timeLeft s' = timeLeft ?s"
    by blast
  with rows top show ?thesis
    by (simp add: exampleStart_fields)
qed

section \<open>The timer\<close>

text \<open>
  Claim C9.  In time mode, while playing and not paused, a tick with more than one second
  left takes one second off.  A tick with exactly one second left runs \<open>addNewRow\<close> and sets
  the time left to 10: the status becomes game over, with the grid kept, when row 0 is
  occupied, and the rows are shifted when row 0 is empty.
\<close>

theorem tick_time_mode:
  assumes "status s = Playing" and "\<not> isPaused s" and "mode s = Time"
  shows "(1 < timeLeft s \<longrightarrow> tick d s = Inr (s\<lparr>timeLeft := timeLeft s - 1\<rparr>)) \<and>
         (timeLeft s = 1 \<longrightarrow>
            tick d s =
              (case addNewRow d s of Inl e \<Rightarrow> Inl e | Inr s1 \<Rightarrow> Inr (s1\<lparr>timeLeft := 10\<rparr>)) \<and>
            (grid s \<noteq> [] \<and> list_ex (\<lambda>cell. cell \<noteq> None) (grid s ! 0) \<longrightarrow>
               tick d s = Inr (s\<lparr>status := GameOver, timeLeft := 10\<rparr>)) \<and>
            (length (grid s) = GRID_ROWS \<and> list_all (\<lambda>cell. cell = None) (grid s ! 0) \<longrightarrow>
               tick d s =
                 Inr (s\<lparr>grid := tl (grid s) @ [generateRow (idDraw d 0) (valueDraw d 0)],
                        timeLeft := 10\<rparr>)))"
proof -
  have dec: "tick d s = Inr (s\<lparr>timeLeft := timeLeft s - 1\<rparr>)" if "1 < timeLeft s"
    using that assms by (simp add: tick_def)
  have inject: "tick d s =
      (case addNewRow d s of Inl e \<Rightarrow> Inl e | Inr s1 \<Rightarrow> Inr (s1\<lparr>timeLeft := 10\<rparr>))"
    if "timeLeft s = 1"
    using that assms by (simp add: tick_def)
  have over: "tick d s = Inr (s\<lparr>status := GameOver, timeLeft := 10\<rparr>)"
    if "timeLeft s = 1" and "grid s \<noteq> []" and "list_ex (\<lambda>cell. cell \<noteq> None) (grid s ! 0)"
    using inject [OF that(1)] addNewRow_gameover_eq [OF that(2,3), of d] by simp
  have shift: "tick d s =
      Inr (s\<lparr>grid := tl (grid s) @ [generateRow (idDraw d 0) (valueDraw d 0)],
             timeLeft := 10\<rparr>)"
    if "timeLeft s = 1" and "length (grid s) = GRID_ROWS"
      and "list_all (\<lambda>cell. cell = None) (grid s ! 0)"
    using inject [OF that(1)] addNewRow_shift_eq [OF that(2,3), of d] by simp
  from dec inject over shift show ?thesis
    by blast
qed

theorem tick_time_mode_witness:
  "status exampleTimed = Playing \<and> \<not> isPaused exampleTimed \<and> mode exampleTimed = Time \<and>
   tick exampleDraws exampleTimed = Inr (exampleTimed\<lparr>timeLeft := 14\<rparr>) \<and>
   tick exampleDraws (exampleTimed\<lparr>timeLeft := 1\<rparr>) =
     Inr (exampleTimed\<lparr>grid := tl (grid exampleTimed) @ [exampleRow], timeLeft := 10\<rparr>) \<and>
   tick exampleDraws (exampleTimed\<lparr>grid := replicate GRID_ROWS exampleRow, timeLeft := 1\<rparr>) =
     Inr (exampleTimed\<lparr>grid := replicate GRID_ROWS exampleRow, status := GameOver,
            timeLeft := 10\<rparr>)"
proof -
  let ?low = "exampleTimed\<lparr>timeLeft := 1\<rparr>"
  let ?full = "exampleTimed\<lparr>grid := replicate GRID_ROWS exampleRow, timeLeft := 1\<rparr>"
  have playing: "status exampleTimed = Playing" "\<not> isPaused exampleTimed"
    "mode exampleTimed = Time"
    by (simp_all add: exampleTimed_fields)
  have playing_low: "status ?low = Playing" "\<not> isPaused ?low" "mode ?low = Time"
    by (simp_all add: exampleTimed_fields)
  have playing_full: "status ?full = Playing" "\<not> isPaused ?full" "mode ?full = Time"
    by (simp_all add: exampleTimed_fields)
  have "tick exampleDraws exampleTimed = Inr (exampleTimed\<lparr>timeLeft := 14\<rparr>)"
    using tick_time_mode [OF playing, of exampleDraws] by (simp add: exampleTimed_fields)
  moreover have "tick exampleDraws ?low =
      Inr (exampleTimed\<lparr>grid := tl (grid exampleTimed) @ [exampleRow], timeLeft := 10\<rparr>)"
  proof -
    have "timeLeft ?low = 1" and "length (grid ?low) = GRID_ROWS"
      and "list_all (\<lambda>cell. cell = None) (grid ?low ! 0)"
      by (simp_all add: exampleTimed_fields emptyRow_empty GRID_ROWS_def)
    with tick_time_mode [OF playing_low, of exampleDraws]
    have "tick exampleDraws ?low =
        Inr (?low\<lparr>grid := tl (grid ?low) @
               [generateRow (idDraw exampleDraws 0) (valueDraw exampleDraws 0)],
               timeLeft := 10\<rparr>)"
      by blast
    then show ?thesis
      by (simp add: exampleRow_generated)
  qed
  moreover have "tick exampleDraws ?full =
      Inr (exampleTimed\<lparr>grid := replicate GRID_ROWS exampleRow, status := GameOver,
             timeLeft := 10\<rparr>)"
  proof -
    have "timeLeft ?full = 1" and "grid ?full \<noteq> []"
      and "list_ex (\<lambda>cell. cell \<noteq> None) (grid ?full ! 0)"
      by (simp_all add: GRID_ROWS_def exampleRow_def)
    with tick_time_mode [OF playing_full, of exampleDraws]
    have "tick exampleDraws ?full = Inr (?full\<lparr>status := GameOver, timeLeft := 10\<rparr>)"
      by blast
    then show ?thesis
      by simp
  qed
  ultimately show ?thesis
    using playing by simp
qed

section \<open>Selecting a cell\<close>

text \<open>
  Claim C6.  In a playing, non-paused state, when the click on an occupied cell toggles
  the selection to a sum strictly above the target, the selection becomes empty and
  nothing else changes: grid, score and target are what they were.
\<close>

theorem handleBlockClick_above_target:
  assumes "status s = Playing" and "\<not> isPaused s"
    and "cellAt (grid s) r c = Inr (Some b)"
    and "sumSelected (grid s) 0 (toggleSelected (selected s) r c) = Inr currentSum"
    and "target s < currentSum"
  shows "\<exists>s'. handleBlockClick d r c s = Inr s' \<and> selected s' = [] \<and> grid s' = grid s \<and>
           score s' = score s \<and> target s' = target s \<and> s' = s\<lparr>selected := []\<rparr>"
  using assms by (simp add: handleBlockClick_def)

theorem handleBlockClick_above_target_witness:
  "status exampleStart = Playing \<and> \<not> isPaused exampleStart \<and>
   cellAt (grid exampleStart) 9 5 = Inr (Some \<lparr>block_id = ''b'', block_value = 8\<rparr>) \<and>
   sumSelected (grid exampleStart) 0 (toggleSelected (selected exampleStart) 9 5) = Inr 8 \<and>
   target exampleStart < 8 \<and>
   (\<exists>s'. handleBlockClick exampleDraws 9 5 exampleStart = Inr s' \<and> selected s' = [] \<and>
      grid s' = grid exampleStart \<and> score s' = score exampleStart \<and>
      target s' = target exampleStart \<and> s' = exampleStart\<lparr>selected := []\<rparr>)"
proof -
  have playing: "status exampleStart = Playing" "\<not> isPaused exampleStart"
    by (simp_all add: exampleStart_fields)
  have cell: "cellAt (grid exampleStart) 9 5 = Inr (Some \<lparr>block_id = ''b'', block_value = 8\<rparr>)"
    by (simp add: exampleStart_fields cellAt_def exampleRow_def)
  have total: "sumSelected (grid exampleStart) 0 (toggleSelected (selected exampleStart) 9 5) = Inr 8"
    by (simp add: exampleStart_fields toggleSelected_def cellAt_def exampleRow_def)
  have above: "target exampleStart < 8"
    by (simp add: exampleStart_fields)
  from playing cell total above
    handleBlockClick_above_target [OF playing cell total above, of exampleDraws]
  show ?thesis
    by blast
qed

text \<open>
  Claim C8, as the code has it.  A click is a silent no-op (it returns, and returns the
  state it was given) when the status is not playing, when the game is paused, or when
  the row index lies in the grid and the cell is empty or the column index lies outside
  the row.  This holds for every coordinate pair while not playing or paused.
\<close>

theorem handleBlockClick_noop:
  assumes "status s \<noteq> Playing \<or> isPaused s \<or>
           (r < length (grid s) \<and> (length (grid s ! r) \<le> c \<or> grid s ! r ! c = None))"
  shows "handleBlockClick d r c s = Inr s"
  using assms by (auto simp: handleBlockClick_def cellAt_def)

theorem handleBlockClick_noop_witness:
  "status (exampleStart\<lparr>status := GameOver\<rparr>) \<noteq> Playing \<and>
   handleBlockClick exampleDraws 10 6 (exampleStart\<lparr>status := GameOver\<rparr>) =
     Inr (exampleStart\<lparr>status := GameOver\<rparr>) \<and>
   isPaused (exampleStart\<lparr>isPaused := True\<rparr>) \<and>
   handleBlockClick exampleDraws 10 6 (exampleStart\<lparr>isPaused := True\<rparr>) =
     Inr (exampleStart\<lparr>isPaused := True\<rparr>) \<and>
   0 < length (grid exampleStart) \<and> grid exampleStart ! 0 ! 0 = None \<and>
   handleBlockClick exampleDraws 0 0 exampleStart = Inr exampleStart \<and>
   9 < length (grid exampleStart) \<and> length (grid exampleStart ! 9) \<le> 6 \<and>
   handleBlockClick exampleDraws 9 6 exampleStart = Inr exampleStart"
proof -
  have over: "status (exampleStart\<lparr>status := GameOver\<rparr>) \<noteq> Playing"
    by simp
  have paused: "isPaused (exampleStart\<lparr>isPaused := True\<rparr>)"
    by simp
  have empty: "0 < length (grid exampleStart)" "grid exampleStart ! 0 ! 0 = None"
    by (simp_all add: exampleStart_fields emptyRow_cells)
  have outside: "9 < length (grid exampleStart)" "length (grid exampleStart ! 9) \<le> 6"
    by (simp_all add: exampleStart_fields exampleRow_def)
  show ?thesis
    using over paused empty outside
      handleBlockClick_noop [of "exampleStart\<lparr>status := GameOver\<rparr>" 10 6 exampleDraws]
      handleBlockClick_noop [of "exampleStart\<lparr>isPaused := True\<rparr>" 10 6 exampleDraws]
      handleBlockClick_noop [of exampleStart 0 0 exampleDraws]
      handleBlockClick_noop [of exampleStart 9 6 exampleDraws]
    by simp
qed

text \<open>
  Claim C8 as stated fails: in a playing, non-paused state a click whose row index lies
  outside the grid reads \<open>grid[r][c]\<close> with \<open>grid[r]\<close> undefined, and the handler throws.
\<close>

theorem handleBlockClick_row_outside:
  "status exampleStart = Playing \<and> \<not> isPaused exampleStart \<and>
   length (grid exampleStart) = 10 \<and>
   handleBlockClick exampleDraws 10 0 exampleStart = Inl TypeError"
  by (simp add: handleBlockClick_def cellAt_def exampleStart_fields)

section \<open>Target generation\<close>

lemma countDraw_range:
  assumes "unitDraw u"
  shows "2 \<le> nat (\<lfloor>u * 3\<rfloor> + 2) \<and> nat (\<lfloor>u * 3\<rfloor> + 2) \<le> 4"
proof -
  from assms have "0 \<le> u * 3" and "u * 3 < 3"
    by (simp_all add: unitDraw_def)
  then have "0 \<le> \<lfloor>u * 3\<rfloor>" and "\<lfloor>u * 3\<rfloor> < 3"
    by (simp_all add: floor_less_iff)
  then show ?thesis
    by arith
qed

lemma targetCount_range:
  assumes "unitDraw u"
  shows "min 2 n \<le> targetCount u n \<and> targetCount u n \<le> min 4 n"
  using countDraw_range [OF assms] unfolding targetCount_def by arith

lemma generateNewTarget_bounds:
  "5 \<le> generateNewTarget u shuffle g \<and> generateNewTarget u shuffle g \<le> 40"
  by (simp add: generateNewTarget_def Let_def)

lemma shuffle_take:
  assumes "isShuffle n p" and "k \<le> n"
  shows "length (take k p) = k \<and> distinct (take k p) \<and> set (take k p) \<subseteq> {0..<n}"
proof -
  from assms(1) have m: "mset p = mset [0..<n]"
    by (simp add: isShuffle_def)
  then have "length p = n"
    using mset_eq_length by fastforce
  moreover from m have "distinct p"
    using mset_eq_imp_distinct_iff distinct_upt by blast
  moreover from m have "set p = {0..<n}"
    using mset_eq_setD by fastforce
  ultimately show ?thesis
    using assms(2) set_take_subset [of k p] by auto
qed

text \<open>
  Claim C4, as the code has it.  \<open>generateNewTarget\<close> returns 10 when no cell is occupied.
  Otherwise, for every draw, the count is \<open>k = min(occupiedCount, j)\<close> with \<open>j\<close> one of 2, 3,
  4: it lies between \<open>min(2, occupiedCount)\<close> and \<open>min(4, occupiedCount)\<close>, so it is 1 when
  a single cell is occupied.  The result is the sum of the values of the blocks at \<open>k\<close>
  distinct positions of the list of occupied blocks, clamped to \<open>[5, 40]\<close>.
\<close>

theorem generateNewTarget_sample:
  assumes "unitDraw u"
    and "isShuffle (length (flatBlocks g)) (shuffle (length (flatBlocks g)))"
  shows "(flatBlocks g = [] \<longrightarrow> generateNewTarget u shuffle g = 10) \<and>
         (flatBlocks g \<noteq> [] \<longrightarrow>
            (\<exists>k picked.
               k = targetCount u (length (flatBlocks g)) \<and>
               picked = take k (shuffle (length (flatBlocks g))) \<and>
               min 2 (length (flatBlocks g)) \<le> k \<and> k \<le> min 4 (length (flatBlocks g)) \<and>
               length picked = k \<and> distinct picked \<and>
               set picked \<subseteq> {0..<length (flatBlocks g)} \<and>
               generateNewTarget u shuffle g =
                 max 5 (min (\<Sum>i\<leftarrow>picked. block_value (flatBlocks g ! i)) 40)))"
proof -
  let ?flat = "flatBlocks g"
  let ?k = "targetCount u (length ?flat)"
  let ?picked = "take ?k (shuffle (length ?flat))"
  have none: "generateNewTarget u shuffle g = 10" if "?flat = []"
    using that by (simp add: generateNewTarget_def)
  have range: "min 2 (length ?flat) \<le> ?k \<and> ?k \<le> min 4 (length ?flat)"
    using assms(1) by (rule targetCount_range)
  then have "?k \<le> length ?flat"
    by simp
  with assms(2)
  have picked: "length ?picked = ?k \<and> distinct ?picked \<and> set ?picked \<subseteq> {0..<length ?flat}"
    by (rule shuffle_take)
  have "map block_value (take ?k (map (\<lambda>i. ?flat ! i) (shuffle (length ?flat)))) =
        map (\<lambda>i. block_value (?flat ! i)) ?picked"
    by (simp add: take_map)
  then have result: "generateNewTarget u shuffle g =
      max 5 (min (\<Sum>i\<leftarrow>?picked. block_value (?flat ! i)) 40)" if "?flat \<noteq> []"
    using that by (simp add: generateNewTarget_def Let_def)
  from none range picked result show ?thesis
    by blast
qed

theorem generateNewTarget_sample_witness:
  "unitDraw (countDraw exampleDraws) \<and>
   isShuffle (length (flatBlocks (grid exampleStart)))
     (shuffleDraw exampleDraws (length (flatBlocks (grid exampleStart)))) \<and>
   flatBlocks (grid exampleStart) \<noteq> [] \<and>
   (\<exists>k picked.
      k = 2 \<and> picked = [0, 1] \<and> length picked = k \<and> distinct picked \<and>
      set picked \<subseteq> {0..<length (flatBlocks (grid exampleStart))} \<and>
      generateNewTarget (countDraw exampleDraws) (shuffleDraw exampleDraws) (grid exampleStart) =
        max 5 (min (\<Sum>i\<leftarrow>picked. block_value (flatBlocks (grid exampleStart) ! i)) 40))"
proof -
  let ?flat = "flatBlocks (grid exampleStart)"
  have draw: "unitDraw (countDraw exampleDraws)"
    by (simp add: exampleDraws_def unitDraw_def)
  have perm: "isShuffle (length ?flat) (shuffleDraw exampleDraws (length ?flat))"
    by (simp add: exampleDraws_def isShuffle_def)
  have len: "length ?flat = 24"
    by (simp add: exampleStart_fields flatBlocks_def emptyRow_cells exampleRow_def)
  then have some: "?flat \<noteq> []"
    by auto
  have k: "targetCount (countDraw exampleDraws) (length ?flat) = 2"
    by (simp add: len targetCount_def exampleDraws_def)
  have p: "take 2 (shuffleDraw exampleDraws (length ?flat)) = [0, 1]"
    by (simp add: len exampleDraws_def upt_conv_Cons)
  from generateNewTarget_sample
    [where u = "countDraw exampleDraws" and g = "grid exampleStart"
      and shuffle = "shuffleDraw exampleDraws", OF draw perm] some k p
  have "length [0, 1::nat] = 2 \<and> distinct [0, 1::nat] \<and> set [0, 1] \<subseteq> {0..<length ?flat} \<and>
      generateNewTarget (countDraw exampleDraws) (shuffleDraw exampleDraws) (grid exampleStart) =
        max 5 (min (\<Sum>i\<leftarrow>[0, 1]. block_value (?flat ! i)) 40)"
    by simp
  with draw perm some show ?thesis
    by blast
qed

text \<open>
  Claim C4 as stated fails on a grid with a single occupied cell: the count is 1, which
  is not in \<open>[2, min(4, 1)]\<close>, and the target is made from that one block.
\<close>

theorem generateNewTarget_single_block:
  "length (flatBlocks exampleSingle) = 1 \<and>
   targetCount (countDraw exampleDraws) (length (flatBlocks exampleSingle)) = 1 \<and>
   \<not> (2 \<le> targetCount (countDraw exampleDraws) (length (flatBlocks exampleSingle))) \<and>
   generateNewTarget (countDraw exampleDraws) (shuffleDraw exampleDraws) exampleSingle = 7"
proof -
  have flat: "flatBlocks exampleSingle = [\<lparr>block_id = ''b'', block_value = 7\<rparr>]"
    by (simp add: exampleSingle_def flatBlocks_def emptyRow_cells numeral_eq_Suc)
  moreover have "targetCount (countDraw exampleDraws) 1 = 1"
    by (simp add: targetCount_def exampleDraws_def)
  ultimately show ?thesis
    by (simp add: exampleTarget)
qed

section \<open>The target stays in its range\<close>

lemma addNewRow_target:
  assumes "addNewRow d s = Inr s'"
  shows "target s' = target s"
  using assms by (auto simp: addNewRow_def split: list.splits if_splits)

lemma handleSuccess_target:
  assumes "handleSuccess d sel s = Inr s'"
  shows "5 \<le> target s' \<and> target s' \<le> 40"
proof (cases "clearBlocks sel (grid s)")
  case (Inl e)
  with assms show ?thesis
    by (simp add: handleSuccess_def)
next
  case (Inr newGrid)
  let ?s1 = "s\<lparr>score := score s + target s * int (length sel), grid := newGrid,
      selected := [],
      target := generateNewTarget (countDraw d) (shuffleDraw d) newGrid\<rparr>"
  have s1: "5 \<le> target ?s1 \<and> target ?s1 \<le> 40"
    using generateNewTarget_bounds by simp
  show ?thesis
  proof (cases "mode s = Classic")
    case True
    with assms Inr have "addNewRow d ?s1 = Inr s'"
      by (simp add: handleSuccess_def)
    then have "target s' = target ?s1"
      by (rule addNewRow_target)
    with s1 show ?thesis
      by simp
  next
    case False
    with assms Inr have "s' = ?s1\<lparr>timeLeft := min (timeLeft ?s1 + 5) 20\<rparr>"
      by (simp add: handleSuccess_def)
    with s1 show ?thesis
      by simp
  qed
qed

lemma handleBlockClick_target:
  assumes "handleBlockClick d r c s = Inr s'" and "5 \<le> target s \<and> target s \<le> 40"
  shows "5 \<le> target s' \<and> target s' \<le> 40"
  using assms
  by (auto simp: handleBlockClick_def Let_def
      split: if_splits sum.splits option.splits dest: handleSuccess_target)

lemma tick_target:
  assumes "tick d s = Inr s'"
  shows "target s' = target s"
  using assms by (auto simp: tick_def split: if_splits sum.splits dest: addNewRow_target)

lemma step_target:
  assumes "step d i s = Inr s'" and "5 \<le> target s \<and> target s \<le> 40"
  shows "5 \<le> target s' \<and> target s' \<le> 40"
proof -
  from assms(1) obtain s1 where h: "handle d i s = Inr s1" and s': "s' = highScoreEffect s1"
    by (cases "handle d i s") (auto simp: step_def)
  have "5 \<le> target s1 \<and> target s1 \<le> 40"
  proof (cases i)
    case (Initialize m)
    with h show ?thesis
      using generateNewTarget_bounds by (auto simp: handle_def initGame_def)
  next
    case (SelectCell r c)
    with h assms(2) show ?thesis
      by (auto simp: handle_def dest: handleBlockClick_target)
  next
    case Tick
    with h assms(2) show ?thesis
      by (auto simp: handle_def dest: tick_target)
  qed (use h assms(2) in \<open>auto simp: handle_def\<close>)
  with s' show ?thesis
    by (simp add: highScoreEffect_def)
qed

text \<open>
  Claim C5.  In every state reachable from \<open>initGame\<close> through any sequence of intents and
  ticks, the target is at least 5 and at most 40.
\<close>

theorem reachable_target:
  assumes "reachable s"
  shows "5 \<le> target s \<and> target s \<le> 40"
  using assms
proof (induction rule: reachable.induct)
  case (reachable_init d m)
  show ?case
    using generateNewTarget_bounds by (simp add: initGame_def)
next
  case (reachable_step s d i s')
  then show ?case
    using step_target by blast
qed

theorem reachable_target_witness:
  "reachable exampleStart \<and> 5 \<le> target exampleStart \<and> target exampleStart \<le> 40"
proof -
  have r: "reachable exampleStart"
    unfolding exampleStart_def using exampleDraws_valid by (rule reachable_init)
  from r reachable_target [OF r] show ?thesis
    by simp
qed

section \<open>Clearing the selected blocks\<close>

lemma inGrid_shape:
  assumes "map length g' = map length g"
  shows "inGrid g' p = inGrid g p"
proof -
  from assms have "length g' = length g"
    using map_eq_imp_length_eq by blast
  moreover from assms have "length (g' ! r) = length (g ! r)" if "r < length g" for r
    using that by (metis length_map nth_map)
  ultimately show ?thesis
    by (auto simp: inGrid_def)
qed

lemma clearCell_inGrid:
  assumes "inGrid g p"
  shows "clearCell p g = Inr (g[fst p := (g ! fst p)[snd p := None]])"
  using assms by (simp add: clearCell_def inGrid_def)

lemma clearCell_shape:
  assumes "inGrid g p"
  shows "map length (g[fst p := (g ! fst p)[snd p := None]]) = map length g"
  using assms by (simp add: inGrid_def map_update list_update_same_conv)

lemma clearCell_content:
  assumes "r < length g" and "c < length (g ! r)"
  shows "g[fst p := (g ! fst p)[snd p := None]] ! r ! c = (if (r, c) = p then None else g ! r ! c)"
  using assms by (cases p; cases "fst p = r"; cases "snd p = c") auto

lemma clearBlocks_inGrid:
  assumes "list_all (inGrid g) sel"
  shows "\<exists>g'. clearBlocks sel g = Inr g' \<and> map length g' = map length g \<and>
           (\<forall>r c. r < length g \<longrightarrow> c < length (g ! r) \<longrightarrow>
              g' ! r ! c = (if (r, c) \<in> set sel then None else g ! r ! c))"
  using assms
proof (induction sel arbitrary: g)
  case Nil
  then show ?case
    by simp
next
  case (Cons p sel)
  let ?g1 = "g[fst p := (g ! fst p)[snd p := None]]"
  from Cons.prems have p: "inGrid g p" and rest: "list_all (inGrid g) sel"
    by simp_all
  have shape1: "map length ?g1 = map length g"
    using p by (rule clearCell_shape)
  then have len1: "length ?g1 = length g"
    using map_eq_imp_length_eq by blast
  have row1: "length (?g1 ! r) = length (g ! r)" if "r < length g" for r
    using that shape1 by (metis length_map nth_map)
  from rest have "list_all (inGrid ?g1) sel"
    using inGrid_shape [OF shape1] by (simp add: list_all_iff)
  from Cons.IH [OF this] obtain g' where run: "clearBlocks sel ?g1 = Inr g'"
    and shape: "map length g' = map length ?g1"
    and content: "\<And>r c. r < length ?g1 \<Longrightarrow> c < length (?g1 ! r) \<Longrightarrow>
        g' ! r ! c = (if (r, c) \<in> set sel then None else ?g1 ! r ! c)"
    by blast
  have "clearBlocks (p # sel) g = Inr g'"
    using run clearCell_inGrid [OF p] by simp
  moreover have "map length g' = map length g"
    using shape shape1 by simp
  moreover have "g' ! r ! c = (if (r, c) \<in> set (p # sel) then None else g ! r ! c)"
    if "r < length g" and "c < length (g ! r)" for r c
  proof -
    from that have "g' ! r ! c = (if (r, c) \<in> set sel then None else ?g1 ! r ! c)"
      using content len1 row1 by simp
    also have "?g1 ! r ! c = (if (r, c) = p then None else g ! r ! c)"
      using that by (rule clearCell_content)
    finally show ?thesis
      by auto
  qed
  ultimately show ?case
    by blast
qed

lemma toggleSelected_inGrid:
  assumes "list_all (inGrid g) sel" and "inGrid g (r, c)"
  shows "list_all (inGrid g) (toggleSelected sel r c)"
  using assms by (auto simp: toggleSelected_def list_all_iff)

lemma cellAt_Some_inGrid:
  assumes "cellAt g r c = Inr (Some b)"
  shows "inGrid g (r, c)"
  using assms by (auto simp: cellAt_def inGrid_def split: if_splits)

lemma cellAt_shape:
  assumes "map length g' = map length g"
  shows "cellAt g' r c =
           (if inGrid g (r, c) then Inr (g' ! r ! c) else cellAt g r c)"
proof -
  from assms have "length g' = length g"
    using map_eq_imp_length_eq by blast
  moreover from assms have "length (g' ! r) = length (g ! r)" if "r < length g"
    using that by (metis length_map nth_map)
  ultimately show ?thesis
    by (auto simp: cellAt_def inGrid_def)
qed

text \<open>
  Claim C1.  In a playing, non-paused state, when the click on an occupied cell toggles the
  selection to a sum equal to the target, the handler adds the old target times the number
  of selected cells to the score, empties every selected cell (every other cell keeps its
  content), empties the selection, and draws the new target from the grid after the
  clearing; then classic mode runs \<open>addNewRow\<close> on that state, and time mode sets the time
  left to \<open>min(timeLeft + 5, 20)\<close> and leaves the cleared grid as it is.  The selection is
  taken to lie within the grid, as it does in every reachable state.
\<close>

theorem handleBlockClick_on_target:
  assumes "status s = Playing" and "\<not> isPaused s"
    and "cellAt (grid s) r c = Inr (Some b)"
    and "list_all (inGrid (grid s)) (selected s)"
    and "sumSelected (grid s) 0 (toggleSelected (selected s) r c) = Inr (target s)"
  shows "\<exists>g'. clearBlocks (toggleSelected (selected s) r c) (grid s) = Inr g' \<and>
           (\<forall>p \<in> set (toggleSelected (selected s) r c). cellAt g' (fst p) (snd p) = Inr None) \<and>
           (\<forall>r' c'. (r', c') \<notin> set (toggleSelected (selected s) r c) \<longrightarrow>
              cellAt g' r' c' = cellAt (grid s) r' c') \<and>
           handleBlockClick d r c s =
             (let s1 = s\<lparr>score := score s + target s * int (length (toggleSelected (selected s) r c)),
                         grid := g',
                         selected := [],
                         target := generateNewTarget (countDraw d) (shuffleDraw d) g'\<rparr>
              in case mode s of
                   Classic \<Rightarrow> addNewRow d s1
                 | Time \<Rightarrow> Inr (s1\<lparr>timeLeft := min (timeLeft s + 5) 20\<rparr>))"
proof -
  let ?sel = "toggleSelected (selected s) r c"
  have "inGrid (grid s) (r, c)"
    using assms(3) by (rule cellAt_Some_inGrid)
  with assms(4) have "list_all (inGrid (grid s)) ?sel"
    by (rule toggleSelected_inGrid)
  then have inside: "\<And>p. p \<in> set ?sel \<Longrightarrow> inGrid (grid s) p"
    by (simp add: list_all_iff)
  from \<open>list_all (inGrid (grid s)) ?sel\<close> obtain g'
    where run: "clearBlocks ?sel (grid s) = Inr g'"
      and shape: "map length g' = map length (grid s)"
      and content: "\<And>r' c'. r' < length (grid s) \<Longrightarrow> c' < length (grid s ! r') \<Longrightarrow>
          g' ! r' ! c' = (if (r', c') \<in> set ?sel then None else grid s ! r' ! c')"
    using clearBlocks_inGrid by blast
  have cleared: "cellAt g' (fst p) (snd p) = Inr None" if "p \<in> set ?sel" for p
  proof -
    from that have "inGrid (grid s) (fst p, snd p)"
      using inside by simp
    then show ?thesis
      using that content [of "fst p" "snd p"] cellAt_shape [OF shape, of "fst p" "snd p"]
      by (simp add: inGrid_def)
  qed
  have kept: "cellAt g' r' c' = cellAt (grid s) r' c'" if "(r', c') \<notin> set ?sel" for r' c'
    using that content [of r' c'] cellAt_shape [OF shape, of r' c']
    by (auto simp: inGrid_def cellAt_def)
  have "handleBlockClick d r c s = handleSuccess d ?sel (s\<lparr>selected := ?sel\<rparr>)"
    using assms by (simp add: handleBlockClick_def Let_def)
  also have "\<dots> =
      (let s1 = s\<lparr>score := score s + target s * int (length ?sel), grid := g',
                  selected := [],
                  target := generateNewTarget (countDraw d) (shuffleDraw d) g'\<rparr>
       in case mode s of
            Classic \<Rightarrow> addNewRow d s1
          | Time \<Rightarrow> Inr (s1\<lparr>timeLeft := min (timeLeft s + 5) 20\<rparr>))"
    using run by (cases "mode s") (simp_all add: handleSuccess_def)
  finally show ?thesis
    using run cleared kept by blast
qed

theorem handleBlockClick_on_target_witness:
  "status exampleTimed = Playing \<and> \<not> isPaused exampleTimed \<and>
   cellAt (grid exampleTimed) 9 3 = Inr (Some \<lparr>block_id = ''b'', block_value = 5\<rparr>) \<and>
   list_all (inGrid (grid exampleTimed)) (selected exampleTimed) \<and>
   sumSelected (grid exampleTimed) 0 (toggleSelected (selected exampleTimed) 9 3) =
     Inr (target exampleTimed) \<and>
   toggleSelected (selected exampleTimed) 9 3 = [(9, 3)] \<and>
   (\<exists>g'. clearBlocks [(9, 3)] (grid exampleTimed) = Inr g' \<and>
      cellAt g' 9 3 = Inr None \<and>
      cellAt g' 9 2 = cellAt (grid exampleTimed) 9 2 \<and>
      handleBlockClick exampleDraws 9 3 exampleTimed =
        Inr (exampleTimed\<lparr>score := 5, grid := g', selected := [],
               target := generateNewTarget (countDraw exampleDraws) (shuffleDraw exampleDraws) g',
               timeLeft := 20\<rparr>)) \<and>
   status exampleStart = Playing \<and> \<not> isPaused exampleStart \<and>
   cellAt (grid exampleStart) 9 3 = Inr (Some \<lparr>block_id = ''b'', block_value = 5\<rparr>) \<and>
   list_all (inGrid (grid exampleStart)) (selected exampleStart) \<and>
   sumSelected (grid exampleStart) 0 (toggleSelected (selected exampleStart) 9 3) =
     Inr (target exampleStart) \<and>
   toggleSelected (selected exampleStart) 9 3 = [(9, 3)] \<and>
   (\<exists>g'. clearBlocks [(9, 3)] (grid exampleStart) = Inr g' \<and>
      cellAt g' 9 3 = Inr None \<and>
      handleBlockClick exampleDraws 9 3 exampleStart =
        addNewRow exampleDraws
          (exampleStart\<lparr>score := 5, grid := g', selected := [],
             target := generateNewTarget (countDraw exampleDraws) (shuffleDraw exampleDraws) g'\<rparr>))"
proof -
  have playing: "status exampleTimed = Playing" "\<not> isPaused exampleTimed"
    by (simp_all add: exampleTimed_fields)
  have cell: "cellAt (grid exampleTimed) 9 3 = Inr (Some \<lparr>block_id = ''b'', block_value = 5\<rparr>)"
    by (simp add: exampleTimed_fields cellAt_def exampleRow_def)
  have sel: "list_all (inGrid (grid exampleTimed)) (selected exampleTimed)"
    by (simp add: exampleTimed_fields)
  have toggled: "toggleSelected (selected exampleTimed) 9 3 = [(9, 3)]"
    by (simp add: exampleTimed_fields toggleSelected_def)
  have total: "sumSelected (grid exampleTimed) 0 (toggleSelected (selected exampleTimed) 9 3) =
      Inr (target exampleTimed)"
    by (simp add: toggled) (simp add: exampleTimed_fields cellAt_def exampleRow_def)
  from handleBlockClick_on_target [OF playing cell sel total, of exampleDraws]
  obtain g' where "clearBlocks [(9, 3)] (grid exampleTimed) = Inr g'"
    and "\<forall>p \<in> set [(9, 3)]. cellAt g' (fst p) (snd p) = Inr None"
    and "\<forall>r' c'. (r', c') \<notin> set [(9::nat, 3::nat)] \<longrightarrow>
        cellAt g' r' c' = cellAt (grid exampleTimed) r' c'"
    and "handleBlockClick exampleDraws 9 3 exampleTimed =
        Inr (exampleTimed\<lparr>score := 5, grid := g', selected := [],
               target := generateNewTarget (countDraw exampleDraws) (shuffleDraw exampleDraws) g',
               timeLeft := 20\<rparr>)"
    unfolding toggled by (auto simp: exampleTimed_fields)
  then have timed: "\<exists>g'. clearBlocks [(9, 3)] (grid exampleTimed) = Inr g' \<and>
      cellAt g' 9 3 = Inr None \<and>
      cellAt g' 9 2 = cellAt (grid exampleTimed) 9 2 \<and>
      handleBlockClick exampleDraws 9 3 exampleTimed =
        Inr (exampleTimed\<lparr>score := 5, grid := g', selected := [],
               target := generateNewTarget (countDraw exampleDraws) (shuffleDraw exampleDraws) g',
               timeLeft := 20\<rparr>)"
    by auto
  have playing': "status exampleStart = Playing" "\<not> isPaused exampleStart"
    by (simp_all add: exampleStart_fields)
  have cell': "cellAt (grid exampleStart) 9 3 = Inr (Some \<lparr>block_id = ''b'', block_value = 5\<rparr>)"
    by (simp add: exampleStart_fields cellAt_def exampleRow_def)
  have sel': "list_all (inGrid (grid exampleStart)) (selected exampleStart)"
    by (simp add: exampleStart_fields)
  have toggled': "toggleSelected (selected exampleStart) 9 3 = [(9, 3)]"
    by (simp add: exampleStart_fields toggleSelected_def)
  have total': "sumSelected (grid exampleStart) 0 (toggleSelected (selected exampleStart) 9 3) =
      Inr (target exampleStart)"
    by (simp add: toggled') (simp add: exampleStart_fields cellAt_def exampleRow_def)
  from handleBlockClick_on_target [OF playing' cell' sel' total', of exampleDraws]
  obtain g' where "clearBlocks [(9, 3)] (grid exampleStart) = Inr g'"
    and "\<forall>p \<in> set [(9, 3)]. cellAt g' (fst p) (snd p) = Inr None"
    and "handleBlockClick exampleDraws 9 3 exampleStart =
        addNewRow exampleDraws
          (exampleStart\<lparr>score := 5, grid := g', selected := [],
             target := generateNewTarget (countDraw exampleDraws) (shuffleDraw exampleDraws) g'\<rparr>)"
    unfolding toggled' by (auto simp: exampleStart_fields)
  then have classic: "\<exists>g'. clearBlocks [(9, 3)] (grid exampleStart) = Inr g' \<and>
      cellAt g' 9 3 = Inr None \<and>
      handleBlockClick exampleDraws 9 3 exampleStart =
        addNewRow exampleDraws
          (exampleStart\<lparr>score := 5, grid := g', selected := [],
             target := generateNewTarget (countDraw exampleDraws) (shuffleDraw exampleDraws) g'\<rparr>)"
    by auto
  from playing cell sel total toggled timed playing' cell' sel' total' toggled' classic
  show ?thesis
    by (intro conjI)
qed

section \<open>The shape of reachable states\<close>

text \<open>
  Every reachable state keeps a grid of \<open>GRID_ROWS\<close> rows of \<open>GRID_COLS\<close> cells and a
  selection of coordinates within it.  So no read or write of a handler leaves the grid
  in a reachable state, but a click on a row index beyond the last row.
\<close>

lemma initialGrid_shape: "map length (initialGrid d) = replicate GRID_ROWS GRID_COLS"
  by (simp add: initialGrid_def generateRow_length GRID_ROWS_def INITIAL_ROWS_def
      upt_conv_Cons numeral_eq_Suc)

lemma wellShaped_rows:
  assumes "wellShaped s"
  shows "length (grid s) = GRID_ROWS"
proof -
  from assms have "length (map length (grid s)) = length (replicate GRID_ROWS GRID_COLS)"
    by (simp add: wellShaped_def)
  then show ?thesis
    by simp
qed

lemma addNewRow_cases:
  assumes "addNewRow d s = Inr s'" and "length (grid s) = GRID_ROWS"
  shows "s' = s\<lparr>status := GameOver\<rparr> \<or>
         s' = s\<lparr>grid := tl (grid s) @ [generateRow (idDraw d 0) (valueDraw d 0)]\<rparr>"
  using assms by (auto simp: addNewRow_def shiftUp_rows split: list.splits if_splits)

lemma addNewRow_defined:
  assumes "length (grid s) = GRID_ROWS"
  shows "\<exists>s'. addNewRow d s = Inr s'"
  using assms by (auto simp: addNewRow_def GRID_ROWS_def split: list.splits)

lemma addNewRow_wellShaped:
  assumes "addNewRow d s = Inr s'" and "wellShaped s"
  shows "wellShaped s'"
proof -
  let ?g' = "tl (grid s) @ [generateRow (idDraw d 0) (valueDraw d 0)]"
  from assms(2) have shape: "map length (grid s) = replicate GRID_ROWS GRID_COLS"
    by (simp add: wellShaped_def)
  then have "map length (tl (grid s)) = replicate (GRID_ROWS - 1) GRID_COLS"
    by (simp add: map_tl)
  then have "map length ?g' = replicate (GRID_ROWS - 1) GRID_COLS @ [GRID_COLS]"
    by (simp add: generateRow_length)
  also have "\<dots> = replicate GRID_ROWS GRID_COLS"
    by (simp add: GRID_ROWS_def replicate_append_same flip: replicate_Suc)
  finally have shape': "map length ?g' = map length (grid s)"
    using shape by simp
  from assms(2) have "list_all (inGrid ?g') (selected s)"
    using inGrid_shape [OF shape'] by (simp add: wellShaped_def list_all_iff)
  with shape' shape have "wellShaped (s\<lparr>grid := ?g'\<rparr>)"
    by (simp add: wellShaped_def)
  moreover from assms(2) have "wellShaped (s\<lparr>status := GameOver\<rparr>)"
    by (simp add: wellShaped_def)
  ultimately show ?thesis
    using addNewRow_cases [OF assms(1) wellShaped_rows [OF assms(2)]] by auto
qed

lemma sumSelected_defined:
  assumes "list_all (inGrid g) sel"
  shows "\<exists>v. sumSelected g acc sel = Inr v"
  using assms by (induction sel arbitrary: acc) (auto simp: cellAt_def inGrid_def)

lemma handleSuccess_wellShaped:
  assumes "wellShaped s"
  shows "\<exists>s'. handleSuccess d (selected s) s = Inr s' \<and> wellShaped s'"
proof -
  from assms have "list_all (inGrid (grid s)) (selected s)"
    by (simp add: wellShaped_def)
  from clearBlocks_inGrid [OF this]
  obtain g' where run: "clearBlocks (selected s) (grid s) = Inr g'"
    and shape: "map length g' = map length (grid s)"
    by blast
  let ?s1 = "s\<lparr>score := score s + target s * int (length (selected s)), grid := g',
      selected := [],
      target := generateNewTarget (countDraw d) (shuffleDraw d) g'\<rparr>"
  have s1: "wellShaped ?s1"
    using assms shape by (simp add: wellShaped_def)
  show ?thesis
  proof (cases "mode s = Classic")
    case True
    from addNewRow_defined [OF wellShaped_rows [OF s1], of d]
    obtain s' where "addNewRow d ?s1 = Inr s'"
      by blast
    moreover from this s1 have "wellShaped s'"
      by (rule addNewRow_wellShaped)
    ultimately show ?thesis
      using True run by (simp add: handleSuccess_def)
  next
    case False
    with run s1 show ?thesis
      by (simp add: handleSuccess_def wellShaped_def)
  qed
qed

lemma handleBlockClick_wellShaped:
  assumes "wellShaped s" and "r < GRID_ROWS"
  shows "\<exists>s'. handleBlockClick d r c s = Inr s' \<and> wellShaped s'"
proof (cases "status s \<noteq> Playing \<or> isPaused s")
  case True
  with assms(1) show ?thesis
    by (auto simp: handleBlockClick_def)
next
  case False
  from assms have row: "r < length (grid s)"
    using wellShaped_rows by simp
  show ?thesis
  proof (cases "cellAt (grid s) r c")
    case (Inl e)
    with row show ?thesis
      by (simp add: cellAt_def split: if_splits)
  next
    case (Inr cell)
    show ?thesis
    proof (cases cell)
      case None
      with Inr False assms(1) show ?thesis
        by (simp add: handleBlockClick_def)
    next
      case (Some block)
      let ?sel = "toggleSelected (selected s) r c"
      let ?s1 = "s\<lparr>selected := ?sel\<rparr>"
      from Inr Some have "inGrid (grid s) (r, c)"
        using cellAt_Some_inGrid by simp
      with assms(1) have sel: "list_all (inGrid (grid s)) ?sel"
        using toggleSelected_inGrid by (simp add: wellShaped_def)
      with assms(1) have s1: "wellShaped ?s1"
        by (simp add: wellShaped_def)
      from sel obtain v where v: "sumSelected (grid s) 0 ?sel = Inr v"
        using sumSelected_defined by blast
      from handleSuccess_wellShaped [OF s1, of d]
      have success: "\<exists>s'. handleSuccess d ?sel ?s1 = Inr s' \<and> wellShaped s'"
        by simp
      from s1 have "wellShaped (?s1\<lparr>selected := []\<rparr>)"
        by (simp add: wellShaped_def)
      with s1 success show ?thesis
        using False Inr Some v by (auto simp: handleBlockClick_def Let_def)
    qed
  qed
qed

lemma tick_wellShaped:
  assumes "wellShaped s"
  shows "\<exists>s'. tick d s = Inr s' \<and> wellShaped s'"
proof -
  from addNewRow_defined [OF wellShaped_rows [OF assms], of d]
  obtain s1 where run: "addNewRow d s = Inr s1"
    by blast
  then have "wellShaped s1"
    using assms by (rule addNewRow_wellShaped)
  then have "wellShaped (s1\<lparr>timeLeft := 10\<rparr>)"
    by (simp add: wellShaped_def)
  moreover from assms have "wellShaped (s\<lparr>timeLeft := timeLeft s - 1\<rparr>)"
    by (simp add: wellShaped_def)
  ultimately show ?thesis
    using run assms \<open>wellShaped s1\<close> by (auto simp: tick_def)
qed

lemma initGame_wellShaped: "wellShaped (initGame d m s)"
  by (simp add: wellShaped_def initGame_def initialGrid_shape)

lemma highScoreEffect_wellShaped:
  assumes "wellShaped s"
  shows "wellShaped (highScoreEffect s)"
  using assms by (simp add: wellShaped_def highScoreEffect_def)

lemma step_wellShaped:
  assumes "wellShaped s" and "case i of SelectCell r c \<Rightarrow> r < GRID_ROWS | _ \<Rightarrow> True"
  shows "\<exists>s'. step d i s = Inr s' \<and> wellShaped s'"
proof -
  have "\<exists>s1. handle d i s = Inr s1 \<and> wellShaped s1"
  proof (cases i)
    case (Initialize m)
    then show ?thesis
      by (simp add: handle_def initGame_wellShaped)
  next
    case (SelectCell r c)
    with assms show ?thesis
      using handleBlockClick_wellShaped by (simp add: handle_def)
  next
    case Tick
    with assms(1) show ?thesis
      using tick_wellShaped by (simp add: handle_def)
  qed (use assms(1) in \<open>simp_all add: handle_def wellShaped_def\<close>)
  then show ?thesis
    using highScoreEffect_wellShaped by (auto simp: step_def)
qed

lemma step_keeps_wellShaped:
  assumes "step d i s = Inr s'" and "wellShaped s"
  shows "wellShaped s'"
proof (cases "case i of SelectCell r c \<Rightarrow> r < GRID_ROWS | _ \<Rightarrow> True")
  case True
  with assms show ?thesis
    using step_wellShaped [of s i d] by auto
next
  case False
  then obtain r c where i: "i = SelectCell r c" and "\<not> r < GRID_ROWS"
    by (cases i) auto
  with assms(2) have "\<not> r < length (grid s)"
    using wellShaped_rows by simp
  with assms i have "s' = highScoreEffect s"
    by (auto simp: step_def handle_def handleBlockClick_def cellAt_def split: if_splits)
  with assms(2) show ?thesis
    by (simp add: highScoreEffect_wellShaped)
qed

lemma reachable_wellShaped:
  assumes "reachable s"
  shows "wellShaped s"
  using assms
proof (induction rule: reachable.induct)
  case (reachable_init d m)
  show ?case
    by (rule initGame_wellShaped)
next
  case (reachable_step s d i s')
  then show ?case
    using step_keeps_wellShaped by blast
qed

lemma reachable_step_defined:
  assumes "reachable s" and "case i of SelectCell r c \<Rightarrow> r < GRID_ROWS | _ \<Rightarrow> True"
  shows "\<exists>s'. step d i s = Inr s'"
  using step_wellShaped [OF reachable_wellShaped [OF assms(1)] assms(2)] by blast

section \<open>The selection after a row injection\<close>

lemma run_reachable:
  assumes "run d is s = Inr s'" and "reachable s" and "validDraws d"
  shows "reachable s'"
  using assms
proof (induction "is" arbitrary: s)
  case Nil
  then show ?case
    by simp
next
  case (Cons i rest)
  from Cons.prems(1) obtain s1 where first: "step d i s = Inr s1"
    and more: "run d rest s1 = Inr s'"
    by (cases "step d i s") simp_all
  from Cons.prems(2,3) first have "reachable s1"
    by (rule reachable_step)
  with more Cons.prems(3) show ?case
    using Cons.IH by blast
qed

lemma exampleStart_record:
  "exampleStart =
     \<lparr>status = Playing, mode = Classic,
      grid = [emptyRow, emptyRow, emptyRow, emptyRow, emptyRow, emptyRow,
              exampleRow, exampleRow, exampleRow, exampleRow],
      selected = [], target = 5, score = 0, timeLeft = 0, isPaused = False, highScore = 0\<rparr>"
  by (rule game.equality) (simp_all add: exampleStart_fields)

lemma example_click_low:
  "step exampleDraws (SelectCell 8 0) exampleStart = Inr (exampleStart\<lparr>selected := [(8, 0)]\<rparr>)"
  by (simp add: step_def handle_def handleBlockClick_def cellAt_def toggleSelected_def
      highScoreEffect_def exampleStart_fields exampleRow_def)

lemma example_click_success:
  "step exampleDraws (SelectCell 8 2) (exampleStart\<lparr>selected := [(8, 0)]\<rparr>) =
     Inr \<lparr>status = Playing, mode = Classic,
          grid = [emptyRow, emptyRow, emptyRow, emptyRow, emptyRow,
                  exampleRow, exampleRow, exampleHoles, exampleRow, exampleRow],
          selected = [], target = 5, score = 10, timeLeft = 0, isPaused = False,
          highScore = 10\<rparr>"
proof -
  let ?s = "exampleStart\<lparr>selected := [(8, 0)]\<rparr>"
  let ?cleared = "[emptyRow, emptyRow, emptyRow, emptyRow, emptyRow, emptyRow,
      exampleRow, exampleRow, exampleHoles, exampleRow]"
  let ?s1 = "\<lparr>status = Playing, mode = Classic, grid = ?cleared, selected = [],
      target = 5, score = 10, timeLeft = 0, isPaused = False, highScore = 0\<rparr>"
  have cleared: "clearBlocks [(8, 0), (8, 2)]
      [emptyRow, emptyRow, emptyRow, emptyRow, emptyRow, emptyRow,
       exampleRow, exampleRow, exampleRow, exampleRow] = Inr ?cleared"
    by (simp add: clearCell_def Let_def exampleRow_def exampleHoles_def)
  have new_target:
    "generateNewTarget (countDraw exampleDraws) (shuffleDraw exampleDraws) ?cleared = 5"
    by (simp add: exampleTarget flatBlocks_def emptyRow_cells exampleRow_def exampleHoles_def)
  have success:
    "handleSuccess exampleDraws [(8, 0), (8, 2)] (exampleStart\<lparr>selected := [(8, 0), (8, 2)]\<rparr>) =
       addNewRow exampleDraws ?s1"
    by (simp add: handleSuccess_def exampleStart_record cleared new_target Let_def
        del: clearBlocks.simps)
  have inject: "addNewRow exampleDraws ?s1 =
      Inr (?s1\<lparr>grid := tl ?cleared @ [exampleRow]\<rparr>)"
    using addNewRow_shift_eq [of ?s1 exampleDraws]
    by (simp add: GRID_ROWS_def emptyRow_empty exampleRow_generated)
  have "handleBlockClick exampleDraws 8 2 ?s =
      handleSuccess exampleDraws [(8, 0), (8, 2)] (exampleStart\<lparr>selected := [(8, 0), (8, 2)]\<rparr>)"
    by (simp add: handleBlockClick_def cellAt_def toggleSelected_def Let_def
        exampleStart_fields exampleRow_def)
  then show ?thesis
    by (simp add: step_def handle_def success inject highScoreEffect_def)
qed

lemma example_click_above:
  "step exampleDraws (SelectCell 6 0)
     \<lparr>status = Playing, mode = Classic,
      grid = [emptyRow, emptyRow, emptyRow, emptyRow, emptyRow,
              exampleRow, exampleRow, exampleHoles, exampleRow, exampleRow],
      selected = [], target = 5, score = 10, timeLeft = 0, isPaused = False,
      highScore = 10\<rparr> =
     Inr \<lparr>status = Playing, mode = Classic,
          grid = [emptyRow, emptyRow, emptyRow, emptyRow, emptyRow,
                  exampleRow, exampleRow, exampleHoles, exampleRow, exampleRow],
          selected = [(6, 0)], target = 5, score = 10, timeLeft = 0, isPaused = False,
          highScore = 10\<rparr>"
  by (simp add: step_def handle_def handleBlockClick_def cellAt_def toggleSelected_def
      highScoreEffect_def exampleRow_def)

lemma example_tick:
  "step exampleDraws Tick
     \<lparr>status = Playing, mode = Classic,
      grid = [emptyRow, emptyRow, emptyRow, emptyRow, emptyRow,
              exampleRow, exampleRow, exampleHoles, exampleRow, exampleRow],
      selected = [(6, 0)], target = 5, score = 10, timeLeft = 0, isPaused = False,
      highScore = 10\<rparr> =
     Inr \<lparr>status = Playing, mode = Classic,
          grid = [emptyRow, emptyRow, emptyRow, emptyRow,
                  exampleRow, exampleRow, exampleHoles, exampleRow, exampleRow, exampleRow],
          selected = [(6, 0)], target = 5, score = 10, timeLeft = 0, isPaused = False,
          highScore = 10\<rparr>"
proof -
  let ?s = "\<lparr>status = Playing, mode = Classic,
      grid = [emptyRow, emptyRow, emptyRow, emptyRow, emptyRow,
              exampleRow, exampleRow, exampleHoles, exampleRow, exampleRow],
      selected = [(6, 0)], target = 5, score = 10, timeLeft = 0, isPaused = False,
      highScore = 10\<rparr>"
  have "addNewRow exampleDraws ?s =
      Inr (?s\<lparr>grid := tl (grid ?s) @ [exampleRow]\<rparr>)"
    using addNewRow_shift_eq [of ?s exampleDraws]
    by (simp add: GRID_ROWS_def emptyRow_empty exampleRow_generated)
  then show ?thesis
    by (simp add: step_def handle_def tick_def highScoreEffect_def)
qed

text \<open>
  Claim C7 at a failing input.  In classic mode, after a success on the cells (8,0) and
  (8,2) the rows move up and leave holes at (7,0) and (7,2); the player then selects the
  block at (6,0), and the timer's \<open>addNewRow\<close> moves the hole below it into (6,0).  The
  state reached holds the selection \<open>[(6,0)]\<close> over an empty cell.
\<close>

theorem selection_over_empty_cell:
  "\<exists>s. run exampleDraws [SelectCell 8 0, SelectCell 8 2, SelectCell 6 0, Tick] exampleStart =
          Inr s \<and>
        reachable s \<and> selected s = [(6, 0)] \<and> cellAt (grid s) 6 0 = Inr None"
proof -
  let ?end = "\<lparr>status = Playing, mode = Classic,
      grid = [emptyRow, emptyRow, emptyRow, emptyRow,
              exampleRow, exampleRow, exampleHoles, exampleRow, exampleRow, exampleRow],
      selected = [(6, 0)], target = 5, score = 10, timeLeft = 0, isPaused = False,
      highScore = 10\<rparr>"
  have trace:
    "run exampleDraws [SelectCell 8 0, SelectCell 8 2, SelectCell 6 0, Tick] exampleStart =
       Inr ?end"
    by (simp add: example_click_low example_click_success example_click_above example_tick)
  have "reachable exampleStart"
    unfolding exampleStart_def using exampleDraws_valid by (rule reachable_init)
  with trace have "reachable ?end"
    using exampleDraws_valid by (rule run_reachable)
  moreover have "selected ?end = [(6, 0)]" and "cellAt (grid ?end) 6 0 = Inr None"
    by (simp_all add: cellAt_def exampleHoles_def)
  ultimately show ?thesis
    using trace by blast
qed

end
